theory Spec2Isabelle
  imports Main "HOL-Library.AList" "HOL-Library.Word"
begin

section \<open>The request rewriting proxy (\<open>proxy.js\<close>)\<close>

text \<open>
  The program is an Express application with one proxy middleware, \<open>doxForward\<close>.
  Its only logic of its own is the \<open>proxyReq\<close> handler \<open>onProxyReq\<close>, which rebuilds a
  multipart body from the fields and files that multer has parsed, and the handler
  \<open>onProxyRes\<close>, which is defined but whose registration is commented out.

  The handlers act on objects of the platform (the logger, the outgoing request
  \<open>proxyReq\<close>, the \<open>FormData\<close> instance, the response \<open>res\<close>). A run of a handler is
  modelled by the list of calls it makes on them, in order. JavaScript exceptions are
  values of type \<open>exn\<close>; a computation that may throw returns the calls made so far
  together with \<open>Inl\<close> of the exception or \<open>Inr\<close> of its result. The calls that throw
  are \<open>JSON.parse\<close>, the assignment to a property of \<open>null\<close> and \<open>getLengthSync\<close>; the
  other calls on the platform return.
\<close>

subsection \<open>JavaScript values\<close>

datatype exn = SyntaxError | TypeError | Thrown string

text \<open>
  What \<open>JSON.parse\<close> returns: a tree of fresh values. Numbers are carried around and never
  inspected by the program, so their type \<open>'n\<close> is left open. The members of an object are
  its own properties in enumeration order. An array has its elements and, besides, the own
  properties that are not indices (none after \<open>JSON.parse\<close>; an assignment can add one).
\<close>

datatype 'n jsval =
    JNull
  | JBool bool
  | JNum 'n
  | JStr string
  | JArr "'n jsval list" "(string \<times> 'n jsval) list"
  | JObj "(string \<times> 'n jsval) list"

text \<open>
  \<open>v.k = x\<close> in sloppy mode (the file has no \<open>'use strict'\<close>), for a key \<open>k\<close> that is neither
  an array index nor \<open>length\<close>: on \<open>null\<close> it throws a \<open>TypeError\<close>, on a primitive it is
  silently ignored, on an array or object it creates or overwrites the own property, which
  keeps its place when it exists and is added last otherwise.
\<close>

fun set_property :: "'n jsval \<Rightarrow> string \<Rightarrow> 'n jsval \<Rightarrow> exn + 'n jsval" where
  "set_property JNull k x = Inl TypeError"
| "set_property (JBool b) k x = Inr (JBool b)"
| "set_property (JNum n) k x = Inr (JNum n)"
| "set_property (JStr s) k x = Inr (JStr s)"
| "set_property (JArr es ps) k x = Inr (JArr es (AList.update k x ps))"
| "set_property (JObj ps) k x = Inr (JObj (AList.update k x ps))"

text \<open>\<open>delete v.k\<close>, for the same keys: removes the own property when there is one.\<close>

fun delete_property :: "'n jsval \<Rightarrow> string \<Rightarrow> exn + 'n jsval" where
  "delete_property JNull k = Inl TypeError"
| "delete_property (JBool b) k = Inr (JBool b)"
| "delete_property (JNum n) k = Inr (JNum n)"
| "delete_property (JStr s) k = Inr (JStr s)"
| "delete_property (JArr es ps) k = Inr (JArr es (AList.delete k ps))"
| "delete_property (JObj ps) k = Inr (JObj (AList.delete k ps))"

text \<open>\<open>Array.prototype.join\<close> on strings.\<close>

fun join :: "string \<Rightarrow> string list \<Rightarrow> string" where
  "join sep [] = []"
| "join sep [x] = x"
| "join sep (x # y # ys) = x @ sep @ join sep (y # ys)"

text \<open>
  \<open>JSON.stringify(v)\<close> without indentation, for the values above. The text of a number and
  the quoting of a string are the platform's (\<open>num\<close> and \<open>quote\<close>). An array is serialised
  by its elements only: its other properties are skipped.
\<close>

fun stringify :: "('n \<Rightarrow> string) \<Rightarrow> (string \<Rightarrow> string) \<Rightarrow> 'n jsval \<Rightarrow> string" where
  "stringify num quote JNull = ''null''"
| "stringify num quote (JBool b) = (if b then ''true'' else ''false'')"
| "stringify num quote (JNum n) = num n"
| "stringify num quote (JStr s) = quote s"
| "stringify num quote (JArr es ps) =
     ''['' @ join '','' (map (stringify num quote) es) @ '']''"
| "stringify num quote (JObj ps) =
     ''{'' @ join '','' (map (\<lambda>p. quote (fst p) @ '':'' @ stringify num quote (snd p)) ps) @ ''}''"

subsection \<open>Multer's input and the FormData instance\<close>

type_synonym bytes = "8 word list"

record uploaded_file =
  fieldname :: string
  originalname :: string
  mimetype :: string
  buffer :: bytes

text \<open>
  \<open>req.body\<close> is given by its own enumerable properties in \<open>for ... in\<close> order (the
  \<open>hasOwnProperty\<close> test of the loop keeps exactly these); the values are the texts of the
  fields. \<open>req.files\<close> is \<open>None\<close> when it is not an array. \<open>http_method\<close> is \<open>req.method\<close>. \<open>content_type\<close> is what
  \<open>req.get('Content-Type')\<close> returns, \<open>None\<close> for \<open>undefined\<close>.
\<close>

record request =
  http_method :: string
  content_type :: "string option"
  body :: "(string \<times> string) list"
  files :: "uploaded_file list option"

datatype part_value = Text string | Buffer bytes

record part_options =
  filename :: string
  contentType :: string

text \<open>A \<open>FormData\<close> instance is the list of its \<open>append(name, value, options)\<close> calls.\<close>

datatype part = Part (part_name: string) (part_value: part_value) (part_opts: "part_options option")

type_synonym form = "part list"

subsection \<open>The platform\<close>

text \<open>The \<open>length\<close> that \<open>getLengthSync\<close> returns: a JavaScript number.\<close>

datatype number = NaN | Finite int

fun truthy :: "number \<Rightarrow> bool" where
  "truthy NaN = False"
| "truthy (Finite n) = (n \<noteq> 0)"

fun isNaN :: "number \<Rightarrow> bool" where
  "isNaN NaN = True"
| "isNaN (Finite n) = False"

text \<open>
  The builtins and library functions that \<open>onProxyReq\<close> calls and whose results it uses,
  and the environment variable read at start-up. \<open>JSON_parse\<close> returns \<open>None\<close> where
  \<open>JSON.parse\<close> throws its \<open>SyntaxError\<close>. \<open>getHeaders\<close> gives the own keys of
  \<open>form.getHeaders()\<close> with their values. \<open>getLengthSync\<close> returns or throws.
\<close>

record 'n platform =
  DOX_SCHEMA :: "string option"
  JSON_parse :: "string \<Rightarrow> 'n jsval option"
  number_text :: "'n \<Rightarrow> string"
  quote_text :: "string \<Rightarrow> string"
  getHeaders :: "form \<Rightarrow> (string \<times> string) list"
  getLengthSync :: "form \<Rightarrow> exn + number"

definition JSON_stringify :: "'n platform \<Rightarrow> 'n jsval \<Rightarrow> string" where
  "JSON_stringify pf v = stringify (number_text pf) (quote_text pf) v"

text \<open>\<open>process.env.DOX_SCHEMA || "SO_Auto_Extraction_Schema"\<close>: the empty string is falsy.\<close>

definition doxSchemaName :: "'n platform \<Rightarrow> string" where
  "doxSchemaName pf =
     (case DOX_SCHEMA pf of
        None \<Rightarrow> ''SO_Auto_Extraction_Schema''
      | Some s \<Rightarrow> if s = [] then ''SO_Auto_Extraction_Schema'' else s)"

subsection \<open>Calls on the platform's objects\<close>

datatype event = Ev_error exn | Ev_end

datatype listener = On_form_error | On_form_end | On_proxyRes_error

datatype header_value = HString string | HNumber number

datatype effect =
    Logger_debug string
  | Logger_error exn
  | Console_error string exn
  | ProxyReq_setHeader string header_value
  | Form_pipe form
  | Form_on listener
  | ProxyReq_destroy exn
  | ProxyReq_end
  | FixRequestBody
  | ProxyRes_pipe
  | ProxyRes_on listener
  | Res_destroy exn

subsection \<open>\<open>onProxyReq\<close>\<close>

text \<open>\<open>String.prototype.includes\<close>: the second string occurs in the first.\<close>

fun startsWith :: "string \<Rightarrow> string \<Rightarrow> bool" where
  "startsWith s [] = True"
| "startsWith [] (c # t) = False"
| "startsWith (d # s) (c # t) = (d = c \<and> startsWith s t)"

fun str_includes :: "string \<Rightarrow> string \<Rightarrow> bool" where
  "str_includes [] t = (t = [])"
| "str_includes (d # s) t = (startsWith (d # s) t \<or> str_includes s t)"

text \<open>
  The body of the \<open>for ... in\<close> loop before \<open>form.append\<close>: parse the text, set
  \<open>schemaName\<close>, delete \<open>extraction\<close>. The result is \<open>jsonOptions\<close> as it is when it is
  serialised for the form.
\<close>

definition rewrite_field :: "'n platform \<Rightarrow> string \<Rightarrow> effect list \<times> (exn + 'n jsval)" where
  "rewrite_field pf text =
     (case JSON_parse pf text of
        None \<Rightarrow> ([], Inl SyntaxError)
      | Some jsonOptions \<Rightarrow>
          (case set_property jsonOptions ''schemaName'' (JStr (doxSchemaName pf)) of
             Inl e \<Rightarrow>
               ([Logger_debug (''Original body request: '' @ JSON_stringify pf jsonOptions)],
                Inl e)
           | Inr assigned \<Rightarrow>
               (case delete_property assigned ''extraction'' of
                  Inl e \<Rightarrow>
                    ([Logger_debug (''Original body request: '' @ JSON_stringify pf jsonOptions)],
                     Inl e)
                | Inr modified \<Rightarrow>
                    ([Logger_debug (''Original body request: '' @ JSON_stringify pf jsonOptions),
                      Logger_debug (''Modified body request: '' @ JSON_stringify pf modified)],
                     Inr modified))))"

text \<open>
  The loop over the fields: each rewritten value is serialised and appended to the form
  under the field's name; the loop stops at the first exception.
\<close>

fun append_fields :: "'n platform \<Rightarrow> (string \<times> string) list \<Rightarrow> form \<Rightarrow> effect list \<times> (exn + form)" where
  "append_fields pf [] form = ([], Inr form)"
| "append_fields pf ((key, text) # rest) form =
     (case rewrite_field pf text of
        (effs, Inl e) \<Rightarrow> (effs, Inl e)
      | (effs, Inr modified) \<Rightarrow>
          (case append_fields pf rest (form @ [Part key (Text (JSON_stringify pf modified)) None]) of
             (effs', r) \<Rightarrow> (effs @ effs', r)))"

text \<open>\<open>req.files.forEach(...)\<close>, run only when \<open>req.files\<close> is an array.\<close>

definition append_file :: "form \<Rightarrow> uploaded_file \<Rightarrow> form" where
  "append_file form f =
     form @ [Part (fieldname f) (Buffer (buffer f))
                  (Some \<lparr>filename = originalname f, contentType = mimetype f\<rparr>)]"

definition append_files :: "uploaded_file list option \<Rightarrow> form \<Rightarrow> form" where
  "append_files fs form = (case fs of None \<Rightarrow> form | Some l \<Rightarrow> foldl append_file form l)"

text \<open>The inner \<open>try\<close>: an exception of \<open>getLengthSync\<close> is swallowed.\<close>

definition set_content_length :: "'n platform \<Rightarrow> form \<Rightarrow> effect list" where
  "set_content_length pf form =
     (case getLengthSync pf form of
        Inl e \<Rightarrow> []
      | Inr len \<Rightarrow>
          if truthy len \<and> \<not> isNaN len
          then [ProxyReq_setHeader ''Content-Length'' (HNumber len)]
          else [])"

text \<open>The multipart branch, inside the outer \<open>try\<close>.\<close>

definition multipart :: "'n platform \<Rightarrow> request \<Rightarrow> effect list \<times> (exn + form)" where
  "multipart pf req =
     (case append_fields pf (body req) [] of
        (effs, Inl e) \<Rightarrow>
          ([Logger_debug ''Handling multipart/form-data request ...'',
            Logger_debug ''Modification of body request ...''] @ effs, Inl e)
      | (effs, Inr texts) \<Rightarrow>
          (let form = append_files (files req) texts in
           ([Logger_debug ''Handling multipart/form-data request ...'',
             Logger_debug ''Modification of body request ...''] @ effs @
            [Logger_debug ''Adding files to multipart request ...'',
             Logger_debug ''Adding headers to request ...''] @
            map (\<lambda>h. ProxyReq_setHeader (fst h) (HString (snd h))) (getHeaders pf form) @
            [Logger_debug ''Calculating Content-Length for the request ...''] @
            set_content_length pf form @
            [Logger_debug ''Pipelining new request ...'',
             Form_pipe form,
             Form_on On_form_error,
             Form_on On_form_end], Inr form)))"

definition is_multipart :: "request \<Rightarrow> bool" where
  "is_multipart req =
     (http_method req = ''POST'' \<and>
      str_includes (case content_type req of None \<Rightarrow> [] | Some s \<Rightarrow> s) ''multipart/form-data'')"

definition onProxyReq :: "'n platform \<Rightarrow> request \<Rightarrow> effect list" where
  "onProxyReq pf req =
     (if is_multipart req
      then (case multipart pf req of
              (effs, Inl err) \<Rightarrow> effs @ [Logger_error err]
            | (effs, Inr form) \<Rightarrow> effs)
      else [Logger_debug ''No multipart/form-data request, using fixRequestBody ...'',
            FixRequestBody])"

subsection \<open>Listeners\<close>

text \<open>
  What a registered listener does when its emitter emits an event: the handlers given to
  \<open>form.on('error', ...)\<close>, \<open>form.on('end', ...)\<close> and \<open>proxyRes.on('error', ...)\<close>. A
  listener is not called for an event of another name.
\<close>

fun run_listener :: "listener \<Rightarrow> event \<Rightarrow> effect list" where
  "run_listener On_form_error (Ev_error err) =
     [Console_error ''Form pipe error:'' err, ProxyReq_destroy err]"
| "run_listener On_form_end Ev_end = [ProxyReq_end]"
| "run_listener On_proxyRes_error (Ev_error err) =
     [Console_error ''proxyRes stream error:'' err, Res_destroy err]"
| "run_listener l ev = []"







subsection \<open>\<open>onProxyRes\<close> and \<open>doxForward\<close>\<close>

text \<open>\<open>onProxyRes\<close> pipes the upstream response into \<open>res\<close> and registers an error listener.\<close>

definition onProxyRes :: "effect list" where
  "onProxyRes = [ProxyRes_pipe, ProxyRes_on On_proxyRes_error]"

fun proxyRes_listeners :: "effect list \<Rightarrow> listener list" where
  "proxyRes_listeners [] = []"
| "proxyRes_listeners (ProxyRes_on l # effs) = l # proxyRes_listeners effs"
| "proxyRes_listeners (e # effs) = proxyRes_listeners effs"

definition proxyRes_emit :: "effect list \<Rightarrow> event \<Rightarrow> effect list" where
  "proxyRes_emit run ev = concat (map (\<lambda>l. run_listener l ev) (proxyRes_listeners run))"

text \<open>
  The \<open>on\<close> option of \<open>createProxyMiddleware\<close>: the handlers of the proxy's events. The
  entry \<open>proxyRes: onProxyRes\<close> is commented out in the source, as is
  \<open>selfHandleResponse\<close>.
\<close>

datatype handler = Handler_onProxyReq | Handler_onProxyRes

definition doxForward_on :: "(string \<times> handler) list" where
  "doxForward_on = [(''proxyReq'', Handler_onProxyReq)]"

definition handlers_of :: "string \<Rightarrow> handler list" where
  "handlers_of name = map snd (filter (\<lambda>p. fst p = name) doxForward_on)"

text \<open>
  The proxy emits \<open>proxyRes\<close>: the calls made by the program's handlers of that event.
  Of the program's two handlers only \<open>onProxyRes\<close> takes a response.
\<close>

fun on_proxyRes :: "handler \<Rightarrow> effect list" where
  "on_proxyRes Handler_onProxyRes = onProxyRes"
| "on_proxyRes Handler_onProxyReq = []"

definition proxied_response :: "effect list" where
  "proxied_response = concat (map on_proxyRes (handlers_of ''proxyRes''))"

subsection \<open>Classifying calls\<close>

fun is_debug :: "effect \<Rightarrow> bool" where
  "is_debug (Logger_debug m) = True"
| "is_debug e = False"

text \<open>Calls that act on the outgoing request \<open>proxyReq\<close>.\<close>

fun on_proxyReq :: "effect \<Rightarrow> bool" where
  "on_proxyReq (ProxyReq_setHeader h v) = True"
| "on_proxyReq (Form_pipe f) = True"
| "on_proxyReq (ProxyReq_destroy err) = True"
| "on_proxyReq ProxyReq_end = True"
| "on_proxyReq FixRequestBody = True"
| "on_proxyReq e = False"

text \<open>Calls that act on the response \<open>res\<close> to the client.\<close>

fun on_res :: "effect \<Rightarrow> bool" where
  "on_res ProxyRes_pipe = True"
| "on_res (Res_destroy err) = True"
| "on_res e = False"



fun is_buffer :: "part \<Rightarrow> bool" where
  "is_buffer (Part name (Buffer b) opts) = True"
| "is_buffer (Part name (Text s) opts) = False"

subsection \<open>A platform and requests for the examples\<close>

text \<open>
  The values of \<open>JSON.parse\<close> at the texts used in the examples; \<open>not json\<close> is one of
  the texts at which it throws. Numbers are written as their decimal text.
\<close>

definition example_parse :: "string \<Rightarrow> string jsval option" where
  "example_parse s =
     (if s = ''{\"extraction\":\"foo\",\"user\":\"bob\"}''
      then Some (JObj [(''extraction'', JStr ''foo''), (''user'', JStr ''bob'')])
      else if s = ''{}'' then Some (JObj [])
      else if s = ''null'' then Some JNull
      else if s = ''7'' then Some (JNum ''7'')
      else if s = ''[7]'' then Some (JArr [JNum ''7''] [])
      else None)"

text \<open>
  A stand-in for the bytes of a form's stream (as many bytes as the values of its parts
  have), and a \<open>getLengthSync\<close> that returns their number.
\<close>

fun value_length :: "part_value \<Rightarrow> nat" where
  "value_length (Text s) = length s"
| "value_length (Buffer b) = length b"

definition example_body :: "form \<Rightarrow> bytes" where
  "example_body f = replicate (sum_list (map (\<lambda>p. value_length (part_value p)) f)) 0"

definition example_platform :: "string platform" where
  "example_platform =
     \<lparr>DOX_SCHEMA = None,
      JSON_parse = example_parse,
      number_text = (\<lambda>n. n),
      quote_text = (\<lambda>s. [CHR 0x22] @ s @ [CHR 0x22]),
      getHeaders = (\<lambda>f. [(''content-type'', ''multipart/form-data; boundary=b'')]),
      getLengthSync = (\<lambda>f. Inr (Finite (int (length (example_body f)))))\<rparr>"

definition example_file :: uploaded_file where
  "example_file =
     \<lparr>fieldname = ''doc'', originalname = ''invoice.pdf'', mimetype = ''application/pdf'',
      buffer = [37, 80, 68, 70]\<rparr>"

definition example_request :: "string \<Rightarrow> request" where
  "example_request text =
     \<lparr>http_method = ''POST'', content_type = Some ''multipart/form-data; boundary=a'',
      body = [(''meta'', text)], files = Some [example_file]\<rparr>"

section \<open>Properties\<close>

subsection \<open>Auxiliary facts\<close>

lemma startsWith_iff: "startsWith s t \<longleftrightarrow> (\<exists>q. s = t @ q)"
  by (induction s t rule: startsWith.induct) auto

lemma str_includes_iff: "str_includes s t \<longleftrightarrow> (\<exists>p q. s = p @ t @ q)"
proof (induction s)
  case Nil
  then show ?case by simp
next
  case (Cons d s)
  show ?case
  proof
    assume "str_includes (d # s) t"
    then consider "startsWith (d # s) t" | "str_includes s t" by auto
    then show "\<exists>p q. d # s = p @ t @ q"
    proof cases
      case 1
      then obtain q where "d # s = t @ q" by (auto simp: startsWith_iff)
      then have "d # s = [] @ t @ q" by simp
      then show ?thesis by blast
    next
      case 2
      then obtain p q where "s = p @ t @ q" using Cons.IH by blast
      then have "d # s = (d # p) @ t @ q" by simp
      then show ?thesis by blast
    qed
  next
    assume "\<exists>p q. d # s = p @ t @ q"
    then obtain p q where pq: "d # s = p @ t @ q" by blast
    show "str_includes (d # s) t"
    proof (cases p)
      case Nil
      with pq have "startsWith (d # s) t" by (auto simp: startsWith_iff)
      then show ?thesis by simp
    next
      case (Cons a p')
      with pq have "s = p' @ t @ q" by simp
      then have "str_includes s t" using Cons.IH by blast
      then show ?thesis by simp
    qed
  qed
qed

lemma rewrite_field_debug: "list_all is_debug (fst (rewrite_field pf text))"
  by (simp add: rewrite_field_def split: option.splits sum.splits)

lemma append_fields_debug: "list_all is_debug (fst (append_fields pf flds form))"
proof (induction flds arbitrary: form)
  case Nil
  then show ?case by simp
next
  case (Cons a flds)
  obtain key t where a: "a = (key, t)" by (cases a)
  obtain effs r where ft: "rewrite_field pf t = (effs, r)" by (cases "rewrite_field pf t")
  have d: "list_all is_debug effs" using rewrite_field_debug [of pf t] ft by simp
  show ?case
  proof (cases r)
    case (Inl e)
    then show ?thesis using a ft d by simp
  next
    case (Inr s)
    obtain effs' r' where rec: "append_fields pf flds (form @ [Part key (Text (JSON_stringify pf s)) None]) = (effs', r')"
      by (cases "append_fields pf flds (form @ [Part key (Text (JSON_stringify pf s)) None])")
    have "list_all is_debug effs'" using Cons.IH [of "form @ [Part key (Text (JSON_stringify pf s)) None]"] rec by simp
    then show ?thesis using a ft d Inr rec by simp
  qed
qed


lemma append_fields_Inr:
  "append_fields pf flds form = (effs, Inr f) \<Longrightarrow>
   \<exists>ts. f = form @ ts \<and>
        list_all2 (\<lambda>fld p. \<exists>s. snd (rewrite_field pf (snd fld)) = Inr s \<and>
                             p = Part (fst fld) (Text (JSON_stringify pf s)) None) flds ts"
proof (induction flds arbitrary: form effs)
  case Nil
  then show ?case by simp
next
  case (Cons a flds)
  obtain key t where a: "a = (key, t)" by (cases a)
  obtain effs1 r where ft: "rewrite_field pf t = (effs1, r)" by (cases "rewrite_field pf t")
  show ?case
  proof (cases r)
    case (Inl e)
    then show ?thesis using Cons.prems a ft by simp
  next
    case (Inr s)
    obtain effs' r' where rec: "append_fields pf flds (form @ [Part key (Text (JSON_stringify pf s)) None]) = (effs', r')"
      by (cases "append_fields pf flds (form @ [Part key (Text (JSON_stringify pf s)) None])")
    with Cons.prems a ft Inr have r': "r' = Inr f" by simp
    from Cons.IH [OF rec [unfolded r']] obtain ts where
      ts: "f = (form @ [Part key (Text (JSON_stringify pf s)) None]) @ ts"
          "list_all2 (\<lambda>fld p. \<exists>s. snd (rewrite_field pf (snd fld)) = Inr s \<and>
                             p = Part (fst fld) (Text (JSON_stringify pf s)) None) flds ts"
      by blast
    have "f = form @ (Part key (Text (JSON_stringify pf s)) None # ts)" using ts(1) by simp
    moreover have "list_all2 (\<lambda>fld p. \<exists>s. snd (rewrite_field pf (snd fld)) = Inr s \<and>
                             p = Part (fst fld) (Text (JSON_stringify pf s)) None) (a # flds) (Part key (Text (JSON_stringify pf s)) None # ts)"
      using ts(2) a ft Inr by simp
    ultimately show ?thesis by blast
  qed
qed

lemma rewrite_field_parse_None: "JSON_parse pf t = None \<Longrightarrow> rewrite_field pf t = ([], Inl SyntaxError)"
  by (simp add: rewrite_field_def)

lemma append_fields_Inl:
  "fld \<in> set flds \<Longrightarrow> JSON_parse pf (snd fld) = None \<Longrightarrow>
   \<exists>e. snd (append_fields pf flds form) = Inl e"
proof (induction flds arbitrary: form)
  case Nil
  then show ?case by simp
next
  case (Cons a flds)
  obtain key t where a: "a = (key, t)" by (cases a)
  obtain effs1 r where ft: "rewrite_field pf t = (effs1, r)" by (cases "rewrite_field pf t")
  show ?case
  proof (cases r)
    case (Inl e)
    then show ?thesis using a ft by simp
  next
    case (Inr s)
    have "JSON_parse pf t \<noteq> None"
    proof
      assume "JSON_parse pf t = None"
      then have "rewrite_field pf t = ([], Inl SyntaxError)" by (rule rewrite_field_parse_None)
      then show False using ft Inr by simp
    qed
    then have "fld \<in> set flds" using Cons.prems a by auto
    from Cons.IH [OF this Cons.prems(2), of "form @ [Part key (Text (JSON_stringify pf s)) None]"]
    obtain e where "snd (append_fields pf flds (form @ [Part key (Text (JSON_stringify pf s)) None])) = Inl e" by blast
    then show ?thesis using a ft Inr by (auto split: prod.splits)
  qed
qed

lemma debug_not_pipe: "list_all is_debug effs \<Longrightarrow> Form_pipe f \<notin> set effs"
  by (auto simp: list_all_iff)

lemma set_content_length_cases:
  "set_content_length pf form = [] \<or>
   (\<exists>n. getLengthSync pf form = Inr (Finite n) \<and> n \<noteq> 0 \<and>
        set_content_length pf form = [ProxyReq_setHeader ''Content-Length'' (HNumber (Finite n))])"
proof (cases "getLengthSync pf form")
  case (Inl e)
  then show ?thesis by (simp add: set_content_length_def)
next
  case (Inr len)
  then show ?thesis by (cases len) (simp_all add: set_content_length_def)
qed

lemma onProxyReq_passthrough:
  "\<not> is_multipart req \<Longrightarrow>
   onProxyReq pf req =
     [Logger_debug ''No multipart/form-data request, using fixRequestBody ...'', FixRequestBody]"
  by (simp add: onProxyReq_def)

lemma onProxyReq_thrown:
  "is_multipart req \<Longrightarrow> append_fields pf (body req) [] = (effs, Inl e) \<Longrightarrow>
   onProxyReq pf req =
     [Logger_debug ''Handling multipart/form-data request ...'',
      Logger_debug ''Modification of body request ...''] @ effs @ [Logger_error e]"
  by (simp add: onProxyReq_def multipart_def)

lemma onProxyReq_piped:
  "is_multipart req \<Longrightarrow> append_fields pf (body req) [] = (effs, Inr texts) \<Longrightarrow>
   onProxyReq pf req =
     [Logger_debug ''Handling multipart/form-data request ...'',
      Logger_debug ''Modification of body request ...''] @ effs @
     [Logger_debug ''Adding files to multipart request ...'',
      Logger_debug ''Adding headers to request ...''] @
     map (\<lambda>h. ProxyReq_setHeader (fst h) (HString (snd h)))
       (getHeaders pf (append_files (files req) texts)) @
     [Logger_debug ''Calculating Content-Length for the request ...''] @
     set_content_length pf (append_files (files req) texts) @
     [Logger_debug ''Pipelining new request ...'',
      Form_pipe (append_files (files req) texts),
      Form_on On_form_error,
      Form_on On_form_end]"
  by (simp add: onProxyReq_def multipart_def Let_def)

lemma onProxyReq_pipe_iff:
  "Form_pipe form \<in> set (onProxyReq pf req) \<longleftrightarrow>
   is_multipart req \<and>
   (\<exists>texts. snd (append_fields pf (body req) []) = Inr texts \<and>
            form = append_files (files req) texts)"
proof (cases "is_multipart req")
  case False
  then show ?thesis by (simp add: onProxyReq_passthrough)
next
  case True
  obtain effs r where af: "append_fields pf (body req) [] = (effs, r)"
    by (cases "append_fields pf (body req) []")
  have d: "Form_pipe form \<notin> set effs"
  proof (rule debug_not_pipe)
    show "list_all is_debug effs" using append_fields_debug [of pf "body req" "[]"] af by simp
  qed
  show ?thesis
  proof (cases r)
    case (Inl e)
    then show ?thesis using True af d by (simp add: onProxyReq_thrown)
  next
    case (Inr texts)
    have "Form_pipe form \<notin> set (set_content_length pf (append_files (files req) texts))"
      using set_content_length_cases [of pf "append_files (files req) texts"] by auto
    then show ?thesis using True af d Inr by (auto simp: onProxyReq_piped)
  qed
qed


lemma foldl_append_file:
  "foldl append_file form l =
   form @ map (\<lambda>f. Part (fieldname f) (Buffer (buffer f))
                       (Some \<lparr>filename = originalname f, contentType = mimetype f\<rparr>)) l"
  by (induction l arbitrary: form) (simp_all add: append_file_def)

lemma append_files_Some:
  "append_files (Some l) form =
   form @ map (\<lambda>f. Part (fieldname f) (Buffer (buffer f))
                       (Some \<lparr>filename = originalname f, contentType = mimetype f\<rparr>)) l"
  by (simp add: append_files_def foldl_append_file)

lemma append_files_None: "append_files None form = form"
  by (simp add: append_files_def)

lemma set_append_files: "set form \<subseteq> set (append_files fs form)"
  by (cases fs) (auto simp: append_files_None append_files_Some)

lemma rewrite_field_object:
  "JSON_parse pf t = Some (JObj ps) \<Longrightarrow>
   snd (rewrite_field pf t) =
     Inr (JObj (AList.delete ''extraction''
                 (AList.update ''schemaName'' (JStr (doxSchemaName pf)) ps)))"
  by (simp add: rewrite_field_def)

lemma list_all2_member:
  "list_all2 P xs ys \<Longrightarrow> x \<in> set xs \<Longrightarrow> \<exists>y \<in> set ys. P x y"
  by (induction rule: list_all2_induct) auto

lemma piped_field_part:
  assumes "Form_pipe form \<in> set (onProxyReq pf req)" and "fld \<in> set (body req)"
  shows "\<exists>v. snd (rewrite_field pf (snd fld)) = Inr v \<and>
             Part (fst fld) (Text (JSON_stringify pf v)) None \<in> set form"
proof -
  from assms(1) obtain texts where
    t: "snd (append_fields pf (body req) []) = Inr texts" "form = append_files (files req) texts"
    by (auto simp: onProxyReq_pipe_iff)
  then obtain effs where "append_fields pf (body req) [] = (effs, Inr texts)"
    by (cases "append_fields pf (body req) []") simp
  from append_fields_Inr [OF this] have
    "list_all2 (\<lambda>fld p. \<exists>s. snd (rewrite_field pf (snd fld)) = Inr s \<and>
                         p = Part (fst fld) (Text (JSON_stringify pf s)) None) (body req) texts"
    by simp
  from list_all2_member [OF this assms(2)] obtain v where
    v: "snd (rewrite_field pf (snd fld)) = Inr v"
       "Part (fst fld) (Text (JSON_stringify pf v)) None \<in> set texts"
    by blast
  have "set texts \<subseteq> set form" using t(2) set_append_files by simp
  then show ?thesis using v by blast
qed

subsection \<open>The rewritten fields\<close>

text \<open>
  Claim C1. Every text field whose value parses as a JSON object is rewritten to an object
  in which \<open>schemaName\<close> is the configured schema name (the value of \<open>DOX_SCHEMA\<close> when the
  environment has a non-empty one, the fixed default otherwise), \<open>extraction\<close> is absent and
  every other key has the value it had; whenever the form is piped, it holds the
  serialisation of that object under the field's name.
\<close>

theorem schemaName_injected:
  assumes "(key, t) \<in> set (body req)" and "JSON_parse pf t = Some (JObj ps)"
  shows "\<exists>ps'. snd (rewrite_field pf t) = Inr (JObj ps') \<and>
           map_of ps' ''schemaName'' = Some (JStr (doxSchemaName pf)) \<and>
           (\<forall>s. DOX_SCHEMA pf = Some s \<and> s \<noteq> [] \<longrightarrow>
              map_of ps' ''schemaName'' = Some (JStr s)) \<and>
           (DOX_SCHEMA pf = None \<or> DOX_SCHEMA pf = Some [] \<longrightarrow>
              map_of ps' ''schemaName'' = Some (JStr ''SO_Auto_Extraction_Schema'')) \<and>
           ''extraction'' \<notin> fst ` set ps' \<and>
           (\<forall>k. k \<noteq> ''schemaName'' \<and> k \<noteq> ''extraction'' \<longrightarrow> map_of ps' k = map_of ps k) \<and>
           (\<forall>form. Form_pipe form \<in> set (onProxyReq pf req) \<longrightarrow>
              Part key (Text (JSON_stringify pf (JObj ps'))) None \<in> set form)"
proof -
  let ?ps' = "AList.delete ''extraction'' (AList.update ''schemaName'' (JStr (doxSchemaName pf)) ps)"
  have r: "snd (rewrite_field pf t) = Inr (JObj ?ps')"
    using assms(2) by (rule rewrite_field_object)
  have a: "map_of ?ps' ''schemaName'' = Some (JStr (doxSchemaName pf))"
    by (simp add: delete_conv' update_conv')
  have e1: "\<forall>s. DOX_SCHEMA pf = Some s \<and> s \<noteq> [] \<longrightarrow> map_of ?ps' ''schemaName'' = Some (JStr s)"
    unfolding a by (simp add: doxSchemaName_def)
  have e2: "DOX_SCHEMA pf = None \<or> DOX_SCHEMA pf = Some [] \<longrightarrow>
      map_of ?ps' ''schemaName'' = Some (JStr ''SO_Auto_Extraction_Schema'')"
    unfolding a by (auto simp: doxSchemaName_def)
  have b: "''extraction'' \<notin> fst ` set ?ps'"
    by (rule delete_notin_dom)
  have c: "\<forall>k. k \<noteq> ''schemaName'' \<and> k \<noteq> ''extraction'' \<longrightarrow> map_of ?ps' k = map_of ps k"
    by (simp add: delete_conv' update_conv')
  have d: "\<forall>form. Form_pipe form \<in> set (onProxyReq pf req) \<longrightarrow>
              Part key (Text (JSON_stringify pf (JObj ?ps'))) None \<in> set form"
  proof (intro allI impI)
    fix form assume "Form_pipe form \<in> set (onProxyReq pf req)"
    from piped_field_part [OF this assms(1)] r
    show "Part key (Text (JSON_stringify pf (JObj ?ps'))) None \<in> set form" by auto
  qed
  from r a e1 e2 b c d show ?thesis by blast
qed

theorem schemaName_injected_witness:
  "(\<exists>ps'. snd (rewrite_field (example_platform\<lparr>DOX_SCHEMA := Some ''Invoice_Schema''\<rparr>)
              ''{\"extraction\":\"foo\",\"user\":\"bob\"}'') = Inr (JObj ps') \<and>
      map_of ps' ''schemaName'' = Some (JStr ''Invoice_Schema'') \<and>
      ''extraction'' \<notin> fst ` set ps' \<and>
      map_of ps' ''user'' = Some (JStr ''bob'')) \<and>
   (\<exists>ps'. snd (rewrite_field example_platform
              ''{\"extraction\":\"foo\",\"user\":\"bob\"}'') = Inr (JObj ps') \<and>
      map_of ps' ''schemaName'' = Some (JStr ''SO_Auto_Extraction_Schema'') \<and>
      ''extraction'' \<notin> fst ` set ps' \<and>
      map_of ps' ''user'' = Some (JStr ''bob''))"
proof -
  let ?t = "''{\"extraction\":\"foo\",\"user\":\"bob\"}''"
  let ?pf = "example_platform\<lparr>DOX_SCHEMA := Some ''Invoice_Schema''\<rparr>"
  have m: "(''meta'', ?t) \<in> set (body (example_request ?t))"
    by (simp add: example_request_def)
  have p: "JSON_parse example_platform ?t =
      Some (JObj [(''extraction'', JStr ''foo''), (''user'', JStr ''bob'')])"
    by (simp add: example_platform_def example_parse_def)
  have p': "JSON_parse ?pf ?t =
      Some (JObj [(''extraction'', JStr ''foo''), (''user'', JStr ''bob'')])"
    by (simp add: example_platform_def example_parse_def)
  have n: "DOX_SCHEMA example_platform = None"
    by (simp add: example_platform_def)
  have n': "DOX_SCHEMA ?pf = Some ''Invoice_Schema'' \<and> ''Invoice_Schema'' \<noteq> []"
    by simp
  have one: "\<exists>ps'. snd (rewrite_field ?pf ?t) = Inr (JObj ps') \<and>
      map_of ps' ''schemaName'' = Some (JStr ''Invoice_Schema'') \<and>
      ''extraction'' \<notin> fst ` set ps' \<and>
      map_of ps' ''user'' = Some (JStr ''bob'')"
    using schemaName_injected [OF m p'] n' by auto
  have two: "\<exists>ps'. snd (rewrite_field example_platform ?t) = Inr (JObj ps') \<and>
      map_of ps' ''schemaName'' = Some (JStr ''SO_Auto_Extraction_Schema'') \<and>
      ''extraction'' \<notin> fst ` set ps' \<and>
      map_of ps' ''user'' = Some (JStr ''bob'')"
    using schemaName_injected [OF m p] n by auto
  from one two show ?thesis by blast
qed

subsection \<open>Dispatch\<close>

lemma is_multipart_iff:
  "is_multipart req \<longleftrightarrow>
   http_method req = ''POST'' \<and>
   (\<exists>p q. content_type req = Some (p @ ''multipart/form-data'' @ q))"
proof (cases "content_type req")
  case None
  then show ?thesis by (simp add: is_multipart_def)
next
  case (Some s)
  then show ?thesis by (simp add: is_multipart_def str_includes_iff)
qed

lemma debug_not_fixRequestBody: "list_all is_debug effs \<Longrightarrow> FixRequestBody \<notin> set effs"
  by (auto simp: list_all_iff)

lemma multipart_never_fixRequestBody:
  assumes "is_multipart req"
  shows "FixRequestBody \<notin> set (onProxyReq pf req)"
proof -
  obtain effs r where af: "append_fields pf (body req) [] = (effs, r)"
    by (cases "append_fields pf (body req) []")
  have d: "FixRequestBody \<notin> set effs"
  proof (rule debug_not_fixRequestBody)
    show "list_all is_debug effs" using append_fields_debug [of pf "body req" "[]"] af by simp
  qed
  show ?thesis
  proof (cases r)
    case (Inl e)
    then show ?thesis using assms af d by (simp add: onProxyReq_thrown)
  next
    case (Inr texts)
    have "FixRequestBody \<notin> set (set_content_length pf (append_files (files req) texts))"
      using set_content_length_cases [of pf "append_files (files req) texts"] by auto
    then show ?thesis using assms af d Inr by (auto simp: onProxyReq_piped)
  qed
qed

lemma multipart_starts:
  assumes "is_multipart req"
  shows "take 2 (onProxyReq pf req) =
    [Logger_debug ''Handling multipart/form-data request ...'',
     Logger_debug ''Modification of body request ...'']"
proof -
  obtain effs r where af: "append_fields pf (body req) [] = (effs, r)"
    by (cases "append_fields pf (body req) []")
  show ?thesis
  proof (cases r)
    case (Inl e)
    then show ?thesis using assms af by (simp add: onProxyReq_thrown)
  next
    case (Inr texts)
    then show ?thesis using assms af by (simp add: onProxyReq_piped)
  qed
qed

text \<open>
  Claim C2, as amended. A request takes the multipart branch exactly when its method is
  \<open>POST\<close> and its \<open>Content-Type\<close> contains \<open>multipart/form-data\<close> (compared
  case-sensitively): then the run starts with the branch's first calls and never calls
  \<open>fixRequestBody\<close>. Every other request, whatever its content type, is handed to
  \<open>fixRequestBody\<close> and nothing else is done to it.
\<close>

theorem dispatch_on_method_and_content_type:
  "(http_method req = ''POST'' \<and>
    (\<exists>p q. content_type req = Some (p @ ''multipart/form-data'' @ q)) \<longrightarrow>
      take 2 (onProxyReq pf req) =
        [Logger_debug ''Handling multipart/form-data request ...'',
         Logger_debug ''Modification of body request ...''] \<and>
      FixRequestBody \<notin> set (onProxyReq pf req)) \<and>
   (\<not> (http_method req = ''POST'' \<and>
        (\<exists>p q. content_type req = Some (p @ ''multipart/form-data'' @ q))) \<longrightarrow>
      onProxyReq pf req =
        [Logger_debug ''No multipart/form-data request, using fixRequestBody ...'',
         FixRequestBody])"
  using multipart_starts [of req pf] multipart_never_fixRequestBody [of req pf]
    onProxyReq_passthrough [of req pf]
  by (simp only: is_multipart_iff [symmetric]) blast

theorem dispatch_on_method_and_content_type_witness:
  "take 2 (onProxyReq example_platform
      \<lparr>http_method = ''POST'', content_type = Some ''multipart/form-data; boundary=a'',
       body = [(''meta'', ''{}'')], files = Some []\<rparr>) =
     [Logger_debug ''Handling multipart/form-data request ...'',
      Logger_debug ''Modification of body request ...''] \<and>
   onProxyReq example_platform
      \<lparr>http_method = ''POST'', content_type = Some ''application/json'',
       body = [], files = None\<rparr> =
     [Logger_debug ''No multipart/form-data request, using fixRequestBody ...'',
      FixRequestBody]"
proof -
  let ?m = "\<lparr>http_method = ''POST'', content_type = Some ''multipart/form-data; boundary=a'',
       body = [(''meta'', ''{}'')], files = Some []\<rparr>"
  let ?j = "\<lparr>http_method = ''POST'', content_type = Some ''application/json'',
       body = [], files = None\<rparr>"
  have "is_multipart ?m" by (simp add: is_multipart_def)
  then have m: "http_method ?m = ''POST'' \<and>
      (\<exists>p q. content_type ?m = Some (p @ ''multipart/form-data'' @ q))"
    using is_multipart_iff [of ?m] by blast
  have "\<not> is_multipart ?j" by (simp add: is_multipart_def)
  then have j: "\<not> (http_method ?j = ''POST'' \<and>
      (\<exists>p q. content_type ?j = Some (p @ ''multipart/form-data'' @ q)))"
    using is_multipart_iff [of ?j] by blast
  from dispatch_on_method_and_content_type [of ?m example_platform] m
    dispatch_on_method_and_content_type [of ?j example_platform] j
  show ?thesis by blast
qed

text \<open>
  Claim C2 as stated fails: a \<open>PUT\<close> request whose \<open>Content-Type\<close> contains
  \<open>multipart/form-data\<close> is handed to \<open>fixRequestBody\<close>.
\<close>

theorem put_multipart_is_passed_through:
  "str_includes ''multipart/form-data; boundary=a'' ''multipart/form-data'' \<and>
   onProxyReq example_platform
      \<lparr>http_method = ''PUT'', content_type = Some ''multipart/form-data; boundary=a'',
       body = [(''meta'', ''{}'')], files = Some []\<rparr> =
     [Logger_debug ''No multipart/form-data request, using fixRequestBody ...'',
      FixRequestBody]"
  by (simp add: onProxyReq_def is_multipart_def)

subsection \<open>The response relay\<close>

text \<open>
  Claim C3 as stated fails: no handler of the program is registered for \<open>proxyRes\<close>,
  so when the upstream response stream reports an error the program makes no call at all
  on \<open>res\<close>.
\<close>

theorem upstream_error_not_handled:
  "Res_destroy (Thrown ''aborted'') \<notin>
     set (proxyRes_emit proxied_response (Ev_error (Thrown ''aborted'')))"
  by (simp add: proxyRes_emit_def proxied_response_def handlers_of_def doxForward_on_def)

text \<open>
  Claim C3, as amended. The listener that \<open>onProxyRes\<close> registers destroys the client
  connection with the error when the upstream response stream reports one, but \<open>doxForward\<close>
  registers no handler for \<open>proxyRes\<close>: on the proxied-response path \<open>onProxyRes\<close> does
  not run and the program reacts to such an error with no call.
\<close>

theorem onProxyRes_destroys_but_is_not_registered:
  "proxyRes_emit onProxyRes (Ev_error err) =
     [Console_error ''proxyRes stream error:'' err, Res_destroy err] \<and>
   handlers_of ''proxyRes'' = [] \<and>
   proxyRes_emit proxied_response (Ev_error err) = []"
  by (simp add: proxyRes_emit_def onProxyRes_def proxied_response_def handlers_of_def
      doxForward_on_def)

subsection \<open>A field that is not JSON\<close>

lemma debug_not_on_res: "is_debug x \<Longrightarrow> \<not> on_res x"
  by (cases x) simp_all

lemma debug_not_on_proxyReq: "is_debug x \<Longrightarrow> \<not> on_proxyReq x"
  by (cases x) simp_all

lemma onProxyReq_parse_failure:
  assumes "is_multipart req" and "fld \<in> set (body req)" and "JSON_parse pf (snd fld) = None"
  shows "\<exists>effs e. onProxyReq pf req = effs @ [Logger_error e] \<and> list_all is_debug effs \<and>
           snd (multipart pf req) = Inl e"
proof -
  from append_fields_Inl [OF assms(2,3), of "[]"] obtain e where
    "snd (append_fields pf (body req) []) = Inl e" by blast
  then obtain effs where af: "append_fields pf (body req) [] = (effs, Inl e)"
    by (cases "append_fields pf (body req) []") simp
  have d: "list_all is_debug effs" using append_fields_debug [of pf "body req" "[]"] af by simp
  let ?pre = "[Logger_debug ''Handling multipart/form-data request ...'',
      Logger_debug ''Modification of body request ...''] @ effs"
  have "onProxyReq pf req = ?pre @ [Logger_error e]"
    using onProxyReq_thrown [OF assms(1) af] by simp
  moreover have "list_all is_debug ?pre" using d by simp
  moreover have "snd (multipart pf req) = Inl e" using af by (simp add: multipart_def)
  ultimately show ?thesis by blast
qed

text \<open>
  Claim C4. If a text field of a request on the multipart branch does not parse as JSON,
  the \<open>try\<close> block ends with an exception and without a form; the exception is caught and
  logged with \<open>logger.error\<close> as the last call of the run, every call before it is a
  \<open>logger.debug\<close>, and no call is made on \<open>res\<close>.
\<close>

theorem parse_failure_is_caught_and_logged:
  assumes "is_multipart req" and "(key, t) \<in> set (body req)" and "JSON_parse pf t = None"
  shows "\<exists>effs e. snd (multipart pf req) = Inl e \<and>
           onProxyReq pf req = effs @ [Logger_error e] \<and>
           list_all is_debug effs \<and>
           list_all (\<lambda>x. \<not> on_res x) (onProxyReq pf req)"
proof -
  from onProxyReq_parse_failure [OF assms(1), of "(key, t)" pf] assms(2,3)
  obtain effs e where
    r: "onProxyReq pf req = effs @ [Logger_error e]" "list_all is_debug effs"
       "snd (multipart pf req) = Inl e"
    by auto
  have "list_all (\<lambda>x. \<not> on_res x) effs"
    using r(2) by (auto simp: list_all_iff debug_not_on_res)
  then have "list_all (\<lambda>x. \<not> on_res x) (onProxyReq pf req)" using r(1) by simp
  with r show ?thesis by blast
qed

theorem parse_failure_is_caught_and_logged_witness:
  "onProxyReq example_platform (example_request ''not json'') =
     [Logger_debug ''Handling multipart/form-data request ...'',
      Logger_debug ''Modification of body request ...''] @ [Logger_error SyntaxError] \<and>
   list_all (\<lambda>x. \<not> on_res x) (onProxyReq example_platform (example_request ''not json''))"
proof -
  have m: "is_multipart (example_request ''not json'')"
    by (simp add: is_multipart_def example_request_def)
  have b: "(''meta'', ''not json'') \<in> set (body (example_request ''not json''))"
    by (simp add: example_request_def)
  have p: "JSON_parse example_platform ''not json'' = None"
    by (simp add: example_platform_def example_parse_def)
  have run: "onProxyReq example_platform (example_request ''not json'') =
     [Logger_debug ''Handling multipart/form-data request ...'',
      Logger_debug ''Modification of body request ...''] @ [Logger_error SyntaxError]"
    using m p by (simp add: onProxyReq_def multipart_def example_request_def rewrite_field_def)
  from parse_failure_is_caught_and_logged [OF m b p] run show ?thesis by auto
qed

lemma piped_text_parts:
  assumes "Form_pipe form \<in> set (onProxyReq pf req)"
  shows "map part_name (filter (\<lambda>p. \<not> is_buffer p) form) = map fst (body req)"
proof -
  from assms obtain texts where
    t: "snd (append_fields pf (body req) []) = Inr texts" "form = append_files (files req) texts"
    by (auto simp: onProxyReq_pipe_iff)
  then obtain effs where "append_fields pf (body req) [] = (effs, Inr texts)"
    by (cases "append_fields pf (body req) []") simp
  from append_fields_Inr [OF this] have
    l: "list_all2 (\<lambda>fld p. \<exists>s. snd (rewrite_field pf (snd fld)) = Inr s \<and>
                         p = Part (fst fld) (Text (JSON_stringify pf s)) None) (body req) texts"
    by simp
  have "list_all2 (\<lambda>fld p. \<not> is_buffer p \<and> part_name p = fst fld) (body req) texts"
    by (rule list_all2_mono [OF l]) auto
  then have a: "filter (\<lambda>p. \<not> is_buffer p) texts = texts \<and> map part_name texts = map fst (body req)"
    by (induction rule: list_all2_induct) auto
  have "filter (\<lambda>p. \<not> is_buffer p) form = filter (\<lambda>p. \<not> is_buffer p) texts"
    using t(2) by (cases "files req") (simp_all add: append_files_None append_files_Some)
  then show ?thesis using a by simp
qed

text \<open>
  Claim C5. On the multipart branch, if some text field does not parse as JSON then the run
  makes no call on the outgoing request (no header set, nothing piped, no end, no destroy);
  and whenever a form is piped, every field has parsed and the piped form holds one text
  part for each field, in order.
\<close>

theorem no_partial_transmission:
  assumes "is_multipart req"
  shows "((\<exists>fld \<in> set (body req). JSON_parse pf (snd fld) = None) \<longrightarrow>
            list_all (\<lambda>x. \<not> on_proxyReq x) (onProxyReq pf req)) \<and>
         (\<forall>form. Form_pipe form \<in> set (onProxyReq pf req) \<longrightarrow>
            (\<forall>fld \<in> set (body req). JSON_parse pf (snd fld) \<noteq> None) \<and>
            map part_name (filter (\<lambda>p. \<not> is_buffer p) form) = map fst (body req))"
proof -
  have a: "list_all (\<lambda>x. \<not> on_proxyReq x) (onProxyReq pf req)"
    if "fld \<in> set (body req)" "JSON_parse pf (snd fld) = None" for fld
  proof -
    from onProxyReq_parse_failure [OF assms that] obtain effs e where
      r: "onProxyReq pf req = effs @ [Logger_error e]" "list_all is_debug effs" by blast
    have "list_all (\<lambda>x. \<not> on_proxyReq x) effs"
      using r(2) by (auto simp: list_all_iff debug_not_on_proxyReq)
    then show ?thesis using r(1) by simp
  qed
  have b: "JSON_parse pf (snd fld) \<noteq> None"
    if "Form_pipe form \<in> set (onProxyReq pf req)" "fld \<in> set (body req)" for form fld
  proof
    assume "JSON_parse pf (snd fld) = None"
    from a [OF that(2) this] that(1) show False by (auto simp: list_all_iff)
  qed
  from a b piped_text_parts [of _ pf req] show ?thesis by blast
qed

theorem no_partial_transmission_witness:
  "list_all (\<lambda>x. \<not> on_proxyReq x) (onProxyReq example_platform (example_request ''not json'')) \<and>
   map part_name (filter (\<lambda>p. \<not> is_buffer p)
     [Part ''meta'' (Text ''{\"schemaName\":\"SO_Auto_Extraction_Schema\"}'') None,
      Part ''doc'' (Buffer [37, 80, 68, 70])
        (Some \<lparr>filename = ''invoice.pdf'', contentType = ''application/pdf''\<rparr>)]) = [''meta'']"
proof -
  have m: "is_multipart (example_request t)" for t
    by (simp add: is_multipart_def example_request_def)
  have b: "\<exists>fld \<in> set (body (example_request ''not json'')).
      JSON_parse example_platform (snd fld) = None"
    by (simp add: example_request_def example_platform_def example_parse_def)
  have p: "Form_pipe [Part ''meta'' (Text ''{\"schemaName\":\"SO_Auto_Extraction_Schema\"}'') None,
      Part ''doc'' (Buffer [37, 80, 68, 70])
        (Some \<lparr>filename = ''invoice.pdf'', contentType = ''application/pdf''\<rparr>)]
      \<in> set (onProxyReq example_platform (example_request ''{}''))"
    by (simp add: onProxyReq_def multipart_def is_multipart_def example_request_def
        rewrite_field_def example_platform_def example_parse_def JSON_stringify_def
        doxSchemaName_def append_files_def append_file_def example_file_def
        set_content_length_def Let_def example_body_def)
  have c: "body (example_request ''{}'') = [(''meta'', ''{}'')]"
    by (simp add: example_request_def)
  from no_partial_transmission [OF m, of "''not json''" example_platform] b
    no_partial_transmission [OF m, of "''{}''" example_platform] p c
  show ?thesis by auto
qed

subsection \<open>Files\<close>

text \<open>
  Claim C6. Whenever a form is piped, its buffer parts are exactly the uploaded files, in
  order: each with the file's field name, its bytes, its original name as \<open>filename\<close> and
  its MIME type as \<open>contentType\<close>.
\<close>

theorem files_passed_through:
  assumes "Form_pipe form \<in> set (onProxyReq pf req)" and "files req = Some fs"
  shows "filter is_buffer form =
     map (\<lambda>f. Part (fieldname f) (Buffer (buffer f))
                 (Some \<lparr>filename = originalname f, contentType = mimetype f\<rparr>)) fs"
proof -
  from assms(1) obtain texts where
    t: "snd (append_fields pf (body req) []) = Inr texts" "form = append_files (files req) texts"
    by (auto simp: onProxyReq_pipe_iff)
  then obtain effs where "append_fields pf (body req) [] = (effs, Inr texts)"
    by (cases "append_fields pf (body req) []") simp
  from append_fields_Inr [OF this] have
    l: "list_all2 (\<lambda>fld p. \<exists>s. snd (rewrite_field pf (snd fld)) = Inr s \<and>
                         p = Part (fst fld) (Text (JSON_stringify pf s)) None) (body req) texts"
    by simp
  have "list_all2 (\<lambda>fld p. \<not> is_buffer p) (body req) texts"
    by (rule list_all2_mono [OF l]) auto
  then have a: "filter is_buffer texts = []"
    by (induction rule: list_all2_induct) auto
  have b: "filter is_buffer (map (\<lambda>f. Part (fieldname f) (Buffer (buffer f))
                 (Some \<lparr>filename = originalname f, contentType = mimetype f\<rparr>)) fs) =
           map (\<lambda>f. Part (fieldname f) (Buffer (buffer f))
                 (Some \<lparr>filename = originalname f, contentType = mimetype f\<rparr>)) fs"
    by (induction fs) simp_all
  show ?thesis using t(2) assms(2) a b by (simp add: append_files_Some)
qed

theorem files_passed_through_witness:
  "filter is_buffer
     [Part ''meta'' (Text ''{\"schemaName\":\"SO_Auto_Extraction_Schema\"}'') None,
      Part ''doc'' (Buffer [37, 80, 68, 70])
        (Some \<lparr>filename = ''invoice.pdf'', contentType = ''application/pdf''\<rparr>)] =
   [Part (fieldname example_file) (Buffer (buffer example_file))
      (Some \<lparr>filename = originalname example_file, contentType = mimetype example_file\<rparr>)]"
proof -
  have p: "Form_pipe [Part ''meta'' (Text ''{\"schemaName\":\"SO_Auto_Extraction_Schema\"}'') None,
      Part ''doc'' (Buffer [37, 80, 68, 70])
        (Some \<lparr>filename = ''invoice.pdf'', contentType = ''application/pdf''\<rparr>)]
      \<in> set (onProxyReq example_platform (example_request ''{}''))"
    by (simp add: onProxyReq_def multipart_def is_multipart_def example_request_def
        rewrite_field_def example_platform_def example_parse_def JSON_stringify_def
        doxSchemaName_def append_files_def append_file_def example_file_def
        set_content_length_def Let_def example_body_def)
  have f: "files (example_request ''{}'') = Some [example_file]"
    by (simp add: example_request_def)
  from files_passed_through [OF p f] show ?thesis by simp
qed

subsection \<open>Content-Length\<close>

lemma debug_not_setHeader: "list_all is_debug effs \<Longrightarrow> ProxyReq_setHeader h v \<notin> set effs"
  by (auto simp: list_all_iff)

lemma content_length_set:
  assumes "ProxyReq_setHeader ''Content-Length'' (HNumber len) \<in> set (onProxyReq pf req)"
  shows "\<exists>form pre post. onProxyReq pf req = pre @ Form_pipe form # post \<and>
           ProxyReq_setHeader ''Content-Length'' (HNumber len) \<in> set pre \<and>
           getLengthSync pf form = Inr len \<and> truthy len \<and> \<not> isNaN len"
proof (cases "is_multipart req")
  case False
  then show ?thesis using assms by (simp add: onProxyReq_passthrough)
next
  case True
  obtain effs r where af: "append_fields pf (body req) [] = (effs, r)"
    by (cases "append_fields pf (body req) []")
  have d: "ProxyReq_setHeader ''Content-Length'' (HNumber len) \<notin> set effs"
  proof (rule debug_not_setHeader)
    show "list_all is_debug effs" using append_fields_debug [of pf "body req" "[]"] af by simp
  qed
  show ?thesis
  proof (cases r)
    case (Inl e)
    then show ?thesis using True af d assms by (simp add: onProxyReq_thrown)
  next
    case (Inr texts)
    let ?form = "append_files (files req) texts"
    let ?pre = "[Logger_debug ''Handling multipart/form-data request ...'',
      Logger_debug ''Modification of body request ...''] @ effs @
     [Logger_debug ''Adding files to multipart request ...'',
      Logger_debug ''Adding headers to request ...''] @
     map (\<lambda>h. ProxyReq_setHeader (fst h) (HString (snd h))) (getHeaders pf ?form) @
     [Logger_debug ''Calculating Content-Length for the request ...''] @
     set_content_length pf ?form @
     [Logger_debug ''Pipelining new request ...'']"
    have run: "onProxyReq pf req = ?pre @ Form_pipe ?form # [Form_on On_form_error, Form_on On_form_end]"
      using onProxyReq_piped [OF True] af Inr by simp
    have s: "ProxyReq_setHeader ''Content-Length'' (HNumber len) \<in> set (set_content_length pf ?form)"
      using assms d unfolding run by auto
    then have "getLengthSync pf ?form = Inr len \<and> truthy len \<and> \<not> isNaN len"
      by (auto simp: set_content_length_def split: sum.splits if_splits)
    moreover have "ProxyReq_setHeader ''Content-Length'' (HNumber len) \<in> set ?pre"
      using s by simp
    ultimately show ?thesis using run by blast
  qed
qed

lemma piped_form_unique:
  "Form_pipe f \<in> set (onProxyReq pf req) \<Longrightarrow> Form_pipe g \<in> set (onProxyReq pf req) \<Longrightarrow> f = g"
  by (auto simp: onProxyReq_pipe_iff)

text \<open>
  Claim C7. \<open>encode\<close> stands for the bytes that the FormData stream emits for a form.
  Provided \<open>getLengthSync\<close>, when it returns, returns the length of these bytes (the
  library's contract), a \<open>Content-Length\<close> that the run sets is the length of the bytes of
  the one form that the run pipes: it is the very value that \<open>getLengthSync\<close> returned for
  that form, and it is set before the form is piped.
\<close>

theorem content_length_is_body_length:
  assumes "\<And>f n. getLengthSync pf f = Inr (Finite n) \<Longrightarrow> n = int (length (encode f))"
    and "ProxyReq_setHeader ''Content-Length'' (HNumber len) \<in> set (onProxyReq pf req)"
  shows "\<exists>form pre post. onProxyReq pf req = pre @ Form_pipe form # post \<and>
           ProxyReq_setHeader ''Content-Length'' (HNumber len) \<in> set pre \<and>
           (\<forall>f. Form_pipe f \<in> set (onProxyReq pf req) \<longrightarrow> f = form) \<and>
           getLengthSync pf form = Inr len \<and>
           len = Finite (int (length (encode form)))"
proof -
  from content_length_set [OF assms(2)] obtain form pre post where
    f: "onProxyReq pf req = pre @ Form_pipe form # post"
       "ProxyReq_setHeader ''Content-Length'' (HNumber len) \<in> set pre"
       "getLengthSync pf form = Inr len" "\<not> isNaN len"
    by blast
  from f(4) obtain n where n: "len = Finite n" by (cases len) simp_all
  with f(3) assms(1) have "n = int (length (encode form))" by simp
  with n have l: "len = Finite (int (length (encode form)))" by simp
  have "Form_pipe form \<in> set (onProxyReq pf req)" using f(1) by simp
  then have u: "\<forall>g. Form_pipe g \<in> set (onProxyReq pf req) \<longrightarrow> g = form"
    by (auto dest: piped_form_unique)
  from f(1,2,3) l u show ?thesis by blast
qed

theorem content_length_is_body_length_witness:
  "\<exists>form pre post.
      onProxyReq example_platform (example_request ''[7]'') = pre @ Form_pipe form # post \<and>
      ProxyReq_setHeader ''Content-Length'' (HNumber (Finite 7)) \<in> set pre \<and>
      Finite 7 = Finite (int (length (example_body form)))"
proof -
  have c: "\<And>f n. getLengthSync example_platform f = Inr (Finite n) \<Longrightarrow>
      n = int (length (example_body f))"
    by (simp add: example_platform_def)
  have h: "ProxyReq_setHeader ''Content-Length'' (HNumber (Finite 7))
      \<in> set (onProxyReq example_platform (example_request ''[7]''))"
    by (simp add: onProxyReq_def multipart_def is_multipart_def example_request_def
        rewrite_field_def example_platform_def example_parse_def JSON_stringify_def
        doxSchemaName_def append_files_def append_file_def example_file_def
        set_content_length_def Let_def example_body_def)
  from content_length_is_body_length [of example_platform example_body, OF c h]
  show ?thesis by blast
qed










subsection \<open>The end of the forwarding\<close>
















subsection \<open>Fields that are JSON but not objects\<close>

text \<open>
  Claim C10 as stated fails for \<open>null\<close>: setting \<open>schemaName\<close> on it throws a
  \<open>TypeError\<close>, which fails the request.
\<close>

theorem null_field_fails_request:
  "onProxyReq example_platform
      \<lparr>http_method = ''POST'', content_type = Some ''multipart/form-data; boundary=a'',
       body = [(''meta'', ''null'')], files = Some []\<rparr> =
     [Logger_debug ''Handling multipart/form-data request ...'',
      Logger_debug ''Modification of body request ...'',
      Logger_debug ''Original body request: null'',
      Logger_error TypeError]"
  by (simp add: onProxyReq_def multipart_def is_multipart_def rewrite_field_def
      example_platform_def example_parse_def JSON_stringify_def)

text \<open>
  Claim C10, as amended. For a text field whose value parses as JSON but not as an object:
  if the value is \<open>null\<close> the rewriting throws a \<open>TypeError\<close>; otherwise (a number, string,
  boolean or array) the rewriting succeeds and the rewritten value serialises to the same
  text as the parsed value, with no \<open>schemaName\<close> injected, and that text is the field's part
  in every form piped for a request with this field.
\<close>

theorem non_object_field:
  assumes "JSON_parse pf t = Some v" and "\<And>ps. v \<noteq> JObj ps"
  shows "(v = JNull \<and> snd (rewrite_field pf t) = Inl TypeError) \<or>
         (v \<noteq> JNull \<and>
          (\<exists>v'. snd (rewrite_field pf t) = Inr v' \<and> JSON_stringify pf v' = JSON_stringify pf v) \<and>
          (\<forall>key req form. (key, t) \<in> set (body req) \<and> Form_pipe form \<in> set (onProxyReq pf req) \<longrightarrow>
             Part key (Text (JSON_stringify pf v)) None \<in> set form))"
proof (cases v)
  case JNull
  then show ?thesis using assms(1) by (simp add: rewrite_field_def)
next
  case (JObj ps)
  then show ?thesis using assms(2) by simp
next
  case (JArr es ps)
  let ?v' = "JArr es (AList.delete ''extraction''
     (AList.update ''schemaName'' (JStr (doxSchemaName pf)) ps))"
  have r: "snd (rewrite_field pf t) = Inr ?v'"
    using assms(1) JArr by (simp add: rewrite_field_def)
  have s: "JSON_stringify pf ?v' = JSON_stringify pf v"
    using JArr by (simp add: JSON_stringify_def)
  have "Part key (Text (JSON_stringify pf v)) None \<in> set form"
    if "(key, t) \<in> set (body req)" "Form_pipe form \<in> set (onProxyReq pf req)" for key req form
    using piped_field_part [OF that(2,1)] r s by auto
  then show ?thesis using r s JArr by blast
next
  case (JBool b)
  have r: "snd (rewrite_field pf t) = Inr v"
    using assms(1) JBool by (simp add: rewrite_field_def)
  have "Part key (Text (JSON_stringify pf v)) None \<in> set form"
    if "(key, t) \<in> set (body req)" "Form_pipe form \<in> set (onProxyReq pf req)" for key req form
    using piped_field_part [OF that(2,1)] r by auto
  then show ?thesis using r JBool by blast
next
  case (JNum n)
  have r: "snd (rewrite_field pf t) = Inr v"
    using assms(1) JNum by (simp add: rewrite_field_def)
  have "Part key (Text (JSON_stringify pf v)) None \<in> set form"
    if "(key, t) \<in> set (body req)" "Form_pipe form \<in> set (onProxyReq pf req)" for key req form
    using piped_field_part [OF that(2,1)] r by auto
  then show ?thesis using r JNum by blast
next
  case (JStr s)
  have r: "snd (rewrite_field pf t) = Inr v"
    using assms(1) JStr by (simp add: rewrite_field_def)
  have "Part key (Text (JSON_stringify pf v)) None \<in> set form"
    if "(key, t) \<in> set (body req)" "Form_pipe form \<in> set (onProxyReq pf req)" for key req form
    using piped_field_part [OF that(2,1)] r by auto
  then show ?thesis using r JStr by blast
qed

theorem non_object_field_witness:
  "(\<exists>v'. snd (rewrite_field example_platform ''[7]'') = Inr v' \<and>
      JSON_stringify example_platform v' = ''[7]'') \<and>
   snd (rewrite_field example_platform ''null'') = Inl TypeError"
proof -
  have a: "JSON_parse example_platform ''[7]'' = Some (JArr [JNum ''7''] [])"
    by (simp add: example_platform_def example_parse_def)
  have n: "JSON_parse example_platform ''null'' = Some JNull"
    by (simp add: example_platform_def example_parse_def)
  have s: "JSON_stringify example_platform (JArr [JNum ''7''] []) = ''[7]''"
    by (simp add: JSON_stringify_def example_platform_def)
  from non_object_field [OF a] non_object_field [OF n] s show ?thesis by auto
qed

end
